theory Spec2Isabelle
  imports Complex_Main "HOL-Library.Char_ord" "HOL-Library.List_Lexorder"
    "HOL-Library.Product_Lexorder"
begin

section \<open>Python strings\<close>

text \<open>
  The program (\<^verbatim>\<open>lab2.py\<close>) works on Python \<^verbatim>\<open>str\<close> values, which are sequences of
  code points. A \<^typ>\<open>string\<close> stands for the Python string whose code points are the numbers
  of its characters, so the strings covered are those over U+0000 .. U+00FF, and
  \<^const>\<open>length\<close> is Python's \<^verbatim>\<open>len\<close>. The character classes below are the ones CPython
  uses for \<^verbatim>\<open>str.isspace\<close>, \<^verbatim>\<open>str.isalpha\<close>, \<^verbatim>\<open>str.isalnum\<close> and \<^verbatim>\<open>str.isupper\<close>,
  restricted to that range.
\<close>

definition code_point :: "char \<Rightarrow> nat" where
  "code_point c = of_char c"

definition between :: "nat \<Rightarrow> nat \<Rightarrow> char \<Rightarrow> bool" where
  "between lo hi c = (lo \<le> code_point c \<and> code_point c \<le> hi)"

text \<open>Whitespace: TAB .. CR, FS .. US, space, NEL and the no-break space.\<close>

definition isspace_char :: "char \<Rightarrow> bool" where
  "isspace_char c =
     (between 9 13 c \<or> between 28 32 c \<or> code_point c = 133 \<or> code_point c = 160)"

text \<open>Uppercase and lowercase letters (there is no titlecase letter below U+0100).\<close>

definition isupper_char :: "char \<Rightarrow> bool" where
  "isupper_char c = (between 65 90 c \<or> between 192 214 c \<or> between 216 222 c)"

definition islower_char :: "char \<Rightarrow> bool" where
  "islower_char c =
     (between 97 122 c \<or> code_point c = 170 \<or> code_point c = 181 \<or> code_point c = 186
      \<or> between 223 246 c \<or> between 248 255 c)"

definition isalpha_char :: "char \<Rightarrow> bool" where
  "isalpha_char c = (isupper_char c \<or> islower_char c)"

definition isdecimal_char :: "char \<Rightarrow> bool" where
  "isdecimal_char c = between 48 57 c"

text \<open>Numeric characters: the decimal digits, the superscripts 1, 2, 3 and the three
  vulgar fractions.\<close>

definition isnumeric_char :: "char \<Rightarrow> bool" where
  "isnumeric_char c =
     (isdecimal_char c \<or> code_point c = 178 \<or> code_point c = 179 \<or> code_point c = 185
      \<or> between 188 190 c)"

definition isalnum_char :: "char \<Rightarrow> bool" where
  "isalnum_char c = (isalpha_char c \<or> isnumeric_char c)"

text \<open>\<^verbatim>\<open>s.isalnum()\<close> and \<^verbatim>\<open>s.isalpha()\<close>: false on the empty string.\<close>

definition isalnum :: "string \<Rightarrow> bool" where
  "isalnum s = (s \<noteq> [] \<and> list_all isalnum_char s)"

definition isalpha :: "string \<Rightarrow> bool" where
  "isalpha s = (s \<noteq> [] \<and> list_all isalpha_char s)"

text \<open>\<^verbatim>\<open>s.isupper()\<close>: no lowercase character and at least one uppercase character.\<close>

definition isupper :: "string \<Rightarrow> bool" where
  "isupper s = (\<not> list_ex islower_char s \<and> list_ex isupper_char s)"

text \<open>\<^verbatim>\<open>s.strip()\<close> removes whitespace at both ends.\<close>

definition lstrip :: "string \<Rightarrow> string" where
  "lstrip s = dropWhile isspace_char s"

definition rstrip :: "string \<Rightarrow> string" where
  "rstrip s = rev (dropWhile isspace_char (rev s))"

definition strip :: "string \<Rightarrow> string" where
  "strip s = rstrip (lstrip s)"

text \<open>\<^verbatim>\<open>s.split(sep)\<close> for a separator of one character: every occurrence separates,
  so the result has one more element than \<open>s\<close> has separators (it is never empty).\<close>

fun str_split :: "char \<Rightarrow> string \<Rightarrow> string list" where
  "str_split sep [] = [[]]"
| "str_split sep (c # cs) =
     (if c = sep then [] # str_split sep cs
      else (case str_split sep cs of [] \<Rightarrow> [[c]] | w # ws \<Rightarrow> (c # w) # ws))"

text \<open>\<^verbatim>\<open>sep.join(xs)\<close>.\<close>

fun str_join :: "string \<Rightarrow> string list \<Rightarrow> string" where
  "str_join sep [] = []"
| "str_join sep [x] = x"
| "str_join sep (x # y # ys) = x @ sep @ str_join sep (y # ys)"

text \<open>\<^verbatim>\<open>s.startswith(p)\<close> and \<^verbatim>\<open>p in s\<close> (substring test).\<close>

definition startswith :: "string \<Rightarrow> string \<Rightarrow> bool" where
  "startswith s p = (take (length p) s = p)"

fun str_contains :: "string \<Rightarrow> string \<Rightarrow> bool" where
  "str_contains p [] = (p = [])"
| "str_contains p (c # cs) = (startswith (c # cs) p \<or> str_contains p cs)"

text \<open>\<^verbatim>\<open>str(n)\<close> for a line number.\<close>

fun str_of_nat :: "nat \<Rightarrow> string" where
  "str_of_nat n =
     (if n < 10 then [char_of (48 + n)]
      else str_of_nat (n div 10) @ [char_of (48 + n mod 10)])"

text \<open>\<^verbatim>\<open>repr(s)\<close>, which the message of a failed \<^verbatim>\<open>float(s)\<close> contains: the quote is
  \<^verbatim>\<open>"\<close> when \<open>s\<close> has a \<^verbatim>\<open>'\<close> and no \<^verbatim>\<open>"\<close>, and \<^verbatim>\<open>'\<close> otherwise; the quote and the
  backslash are escaped, so are the characters that are not printable.\<close>

definition hex_digit :: "nat \<Rightarrow> char" where
  "hex_digit n = (if n < 10 then char_of (48 + n) else char_of (87 + n))"

definition isprintable_char :: "char \<Rightarrow> bool" where
  "isprintable_char c = (between 32 126 c \<or> between 161 172 c \<or> between 174 255 c)"

definition repr_char :: "char \<Rightarrow> char \<Rightarrow> string" where
  "repr_char quote c =
     (if c = quote \<or> c = CHR 0x5C then [CHR 0x5C, c]
      else if c = CHR 0x09 then [CHR 0x5C, CHR ''t'']
      else if c = CHR 0x0A then [CHR 0x5C, CHR ''n'']
      else if c = CHR 0x0D then [CHR 0x5C, CHR ''r'']
      else if isprintable_char c then [c]
      else [CHR 0x5C, CHR ''x'', hex_digit (code_point c div 16),
            hex_digit (code_point c mod 16)])"

definition repr :: "string \<Rightarrow> string" where
  "repr s =
     (let quote = (if CHR 0x27 \<in> set s \<and> CHR 0x22 \<notin> set s then CHR 0x22 else CHR 0x27)
      in [quote] @ concat (map (repr_char quote) s) @ [quote])"

section \<open>Timestamps: \<^verbatim>\<open>datetime.strptime(value, "%Y-%m-%d %H:%M")\<close>\<close>

text \<open>
  \<^verbatim>\<open>strptime\<close> translates the format into a regular expression, matches it at the start of
  the string with the backtracking matcher of \<^verbatim>\<open>re\<close>, and fails when there is no match or
  when the first match leaves characters over. The directives of \<^verbatim>\<open>DATE_FORMAT\<close> become
  \<^verbatim>\<open>%Y: \d\d\d\d\<close>, \<^verbatim>\<open>%m: 1[0-2]|0[1-9]|[1-9]\<close>,
  \<^verbatim>\<open>%d: 3[0-1]|[1-2]\d|0[1-9]|[1-9]| [1-9]\<close>, \<^verbatim>\<open>%H: 2[0-3]|[0-1]\d|\d\<close>,
  \<^verbatim>\<open>%M: [0-5]\d|\d\<close>, and the space of the format becomes \<^verbatim>\<open>\s+\<close>.
  An alternative is a list of character classes; a matcher returns its matches in the order
  in which backtracking tries them.
\<close>

definition is_digit :: "char \<Rightarrow> bool" where
  "is_digit c = between 48 57 c"

definition digit_range :: "nat \<Rightarrow> nat \<Rightarrow> char \<Rightarrow> bool" where
  "digit_range lo hi c = between (48 + lo) (48 + hi) c"

fun match_classes :: "(char \<Rightarrow> bool) list \<Rightarrow> string \<Rightarrow> (string \<times> string) option" where
  "match_classes [] s = Some ([], s)"
| "match_classes (p # ps) [] = None"
| "match_classes (p # ps) (c # cs) =
     (if p c then map_option (\<lambda>(m, r). (c # m, r)) (match_classes ps cs) else None)"

definition match_alts :: "(char \<Rightarrow> bool) list list \<Rightarrow> string \<Rightarrow> (string \<times> string) list" where
  "match_alts alts s = List.map_filter (\<lambda>alt. match_classes alt s) alts"

definition match_lit :: "char \<Rightarrow> string \<Rightarrow> string list" where
  "match_lit c s = (case s of [] \<Rightarrow> [] | x # xs \<Rightarrow> if x = c then [xs] else [])"

text \<open>\<^verbatim>\<open>\s+\<close> is greedy: the longest run of whitespace first, then the shorter ones.\<close>

definition match_spaces :: "string \<Rightarrow> string list" where
  "match_spaces s = map (\<lambda>k. drop k s) (rev [1 ..< Suc (length (takeWhile isspace_char s))])"

definition re_Y :: "(char \<Rightarrow> bool) list list" where
  "re_Y = [[is_digit, is_digit, is_digit, is_digit]]"

definition re_m :: "(char \<Rightarrow> bool) list list" where
  "re_m = [[digit_range 1 1, digit_range 0 2], [digit_range 0 0, digit_range 1 9],
           [digit_range 1 9]]"

definition re_d :: "(char \<Rightarrow> bool) list list" where
  "re_d = [[digit_range 3 3, digit_range 0 1], [digit_range 1 2, is_digit],
           [digit_range 0 0, digit_range 1 9], [digit_range 1 9],
           [(\<lambda>c. c = CHR '' ''), digit_range 1 9]]"

definition re_H :: "(char \<Rightarrow> bool) list list" where
  "re_H = [[digit_range 2 2, digit_range 0 3], [digit_range 0 1, is_digit], [is_digit]]"

definition re_M :: "(char \<Rightarrow> bool) list list" where
  "re_M = [[digit_range 0 5, is_digit], [is_digit]]"

text \<open>All matches of the whole expression, in backtracking order: the five groups and the
  rest of the string.\<close>

definition strptime_matches ::
  "string \<Rightarrow> ((string \<times> string \<times> string \<times> string \<times> string) \<times> string) list" where
  "strptime_matches s =
     concat (map (\<lambda>(y, r1). concat (map (\<lambda>r2.
     concat (map (\<lambda>(m, r3). concat (map (\<lambda>r4.
     concat (map (\<lambda>(d, r5). concat (map (\<lambda>r6.
     concat (map (\<lambda>(h, r7). concat (map (\<lambda>r8.
     map (\<lambda>(mi, r9). ((y, m, d, h, mi), r9)) (match_alts re_M r8))
       (match_lit CHR '':'' r7))) (match_alts re_H r6)))
       (match_spaces r5))) (match_alts re_d r4)))
       (match_lit CHR ''-'' r3))) (match_alts re_m r2)))
       (match_lit CHR ''-'' r1))) (match_alts re_Y s))"

text \<open>\<^verbatim>\<open>int(group)\<close>: a group holds digits, and for the last alternative of \<^verbatim>\<open>%d\<close> a
  leading space, which \<^verbatim>\<open>int\<close> ignores.\<close>

definition int_of_group :: "string \<Rightarrow> nat" where
  "int_of_group g = foldl (\<lambda>n c. 10 * n + (code_point c - 48)) 0 (filter is_digit g)"

definition is_leap :: "nat \<Rightarrow> bool" where
  "is_leap y = (y mod 4 = 0 \<and> (y mod 100 \<noteq> 0 \<or> y mod 400 = 0))"

definition days_in_month :: "nat \<Rightarrow> nat \<Rightarrow> nat" where
  "days_in_month y m =
     (if m = 2 then (if is_leap y then 29 else 28)
      else if m = 4 \<or> m = 6 \<or> m = 9 \<or> m = 11 then 30 else 31)"

text \<open>A \<^verbatim>\<open>datetime\<close> built by this format: year, month, day, hour, minute (seconds and
  microseconds are 0). Python compares such values field by field in this order, which
  is the lexicographic order of the tuple.\<close>

type_synonym datetime = "nat \<times> nat \<times> nat \<times> nat \<times> nat"

text \<open>\<^verbatim>\<open>parse_datetime\<close>: \<open>None\<close> stands for the \<^verbatim>\<open>ValueError\<close> of \<^verbatim>\<open>strptime\<close> (no
  match, unconverted data, or a date that does not exist, year 0 included).\<close>

definition parse_datetime :: "string \<Rightarrow> datetime option" where
  "parse_datetime value =
     (case strptime_matches value of
        [] \<Rightarrow> None
      | ((y, m, d, h, mi), rest) # _ \<Rightarrow>
          if rest \<noteq> [] then None
          else let year = int_of_group y; month = int_of_group m; day = int_of_group d
               in if 1 \<le> year \<and> 1 \<le> day \<and> day \<le> days_in_month year month
                  then Some (year, month, day, int_of_group h, int_of_group mi)
                  else None)"

section \<open>Numbers: \<^verbatim>\<open>float\<close>\<close>

text \<open>
  A Python \<^verbatim>\<open>float\<close> is an IEEE 754 binary64 value: not-a-number, an infinity, or a
  rational number that binary64 represents (the sign of zero is not kept: \<^verbatim>\<open>-0.0 == 0.0\<close>
  and no comparison tells them apart). Every comparison with not-a-number is false.
\<close>

datatype pyfloat = NaN | NegInf | Finite rat | PosInf

fun pyfloat_less :: "pyfloat \<Rightarrow> pyfloat \<Rightarrow> bool" where
  "pyfloat_less NaN _ = False"
| "pyfloat_less _ NaN = False"
| "pyfloat_less _ NegInf = False"
| "pyfloat_less NegInf _ = True"
| "pyfloat_less PosInf _ = False"
| "pyfloat_less (Finite x) (Finite y) = (x < y)"
| "pyfloat_less (Finite x) PosInf = True"

definition pyfloat_le :: "pyfloat \<Rightarrow> pyfloat \<Rightarrow> bool" where
  "pyfloat_le a b = (pyfloat_less a b \<or> (a = b \<and> a \<noteq> NaN))"

definition pyfloat_neg :: "pyfloat \<Rightarrow> pyfloat" where
  "pyfloat_neg a =
     (case a of NaN \<Rightarrow> NaN | NegInf \<Rightarrow> PosInf | Finite x \<Rightarrow> Finite (- x) | PosInf \<Rightarrow> NegInf)"

text \<open>Rounding a rational to binary64, to nearest and ties to even; a result of
  \<open>2\<^sup>1\<^sup>0\<^sup>2\<^sup>4\<close> or more is an overflow, which gives an infinity.\<close>

fun bit_length :: "nat \<Rightarrow> nat" where
  "bit_length n = (if n = 0 then 0 else Suc (bit_length (n div 2)))"

definition pow2 :: "int \<Rightarrow> rat" where
  "pow2 e = (if 0 \<le> e then 2 ^ nat e else 1 / 2 ^ nat (- e))"

text \<open>For \<open>0 < x\<close>: the exponent \<open>e\<close> with \<open>2\<^sup>e \<le> x < 2\<^sup>e\<^sup>+\<^sup>1\<close>.\<close>

definition floor_log2 :: "rat \<Rightarrow> int" where
  "floor_log2 x =
     (let (a, b) = quotient_of x;
          e = int (bit_length (nat a)) - int (bit_length (nat b))
      in if pow2 e \<le> x then e else e - 1)"

definition round_half_even :: "rat \<Rightarrow> int" where
  "round_half_even x =
     (let f = \<lfloor>x\<rfloor>; r = x - of_int f
      in if r < 1 / 2 then f else if 1 / 2 < r then f + 1 else if even f then f else f + 1)"

definition round_positive :: "rat \<Rightarrow> pyfloat" where
  "round_positive x =
     (let e = max (floor_log2 x) (- 1022);
          ulp = pow2 (e - 52);
          y = of_int (round_half_even (x / ulp)) * ulp
      in if pow2 1024 \<le> y then PosInf else Finite y)"

definition round_binary64 :: "rat \<Rightarrow> pyfloat" where
  "round_binary64 x =
     (if x = 0 then Finite 0
      else if x < 0 then pyfloat_neg (round_positive (- x))
      else round_positive x)"

text \<open>
  \<^verbatim>\<open>float(s)\<close> for a string: whitespace is removed at both ends (the ASCII whitespace of C,
  and the whitespace beyond ASCII), an underscore may stand between two digits, and what
  is left is an optional sign followed by \<^verbatim>\<open>inf\<close>, \<^verbatim>\<open>infinity\<close> or \<^verbatim>\<open>nan\<close> in any case,
  or by a decimal number: digits with at most one point and at least one digit, and an
  optional exponent. \<open>None\<close> stands for the \<^verbatim>\<open>ValueError\<close>.
\<close>

definition float_space :: "char \<Rightarrow> bool" where
  "float_space c = (between 9 13 c \<or> code_point c = 32 \<or> code_point c = 133 \<or> code_point c = 160)"

definition float_strip :: "string \<Rightarrow> string" where
  "float_strip s = rev (dropWhile float_space (rev (dropWhile float_space s)))"

fun remove_underscores :: "char \<Rightarrow> string \<Rightarrow> string option" where
  "remove_underscores prev [] = (if prev = CHR ''_'' then None else Some [])"
| "remove_underscores prev (c # cs) =
     (if c = CHR ''_'' then (if is_digit prev then remove_underscores c cs else None)
      else if prev = CHR ''_'' \<and> \<not> is_digit c then None
      else map_option ((#) c) (remove_underscores c cs))"

definition ascii_lower :: "char \<Rightarrow> char" where
  "ascii_lower c = (if between 65 90 c then char_of (code_point c + 32) else c)"

definition nat_of_digits :: "string \<Rightarrow> nat" where
  "nat_of_digits ds = foldl (\<lambda>n c. 10 * n + (code_point c - 48)) 0 ds"

definition parse_sign :: "string \<Rightarrow> bool \<times> string" where
  "parse_sign s =
     (case s of
        [] \<Rightarrow> (False, [])
      | c # cs \<Rightarrow> if c = CHR ''-'' then (True, cs) else if c = CHR ''+'' then (False, cs)
                 else (False, s))"

text \<open>The exponent part: empty, or \<^verbatim>\<open>e\<close> or \<^verbatim>\<open>E\<close>, an optional sign and at least one digit.\<close>

definition parse_exponent :: "string \<Rightarrow> int option" where
  "parse_exponent s =
     (case s of
        [] \<Rightarrow> Some 0
      | c # cs \<Rightarrow>
          if c = CHR ''e'' \<or> c = CHR ''E'' then
            (let (neg, ds) = parse_sign cs
             in if ds \<noteq> [] \<and> list_all is_digit ds
                then Some (if neg then - int (nat_of_digits ds) else int (nat_of_digits ds))
                else None)
          else None)"

definition pow10 :: "int \<Rightarrow> rat" where
  "pow10 e = (if 0 \<le> e then 10 ^ nat e else 1 / 10 ^ nat (- e))"

definition parse_decimal :: "string \<Rightarrow> rat option" where
  "parse_decimal s =
     (let ip = takeWhile is_digit s; r1 = dropWhile is_digit s;
          has_point = (r1 \<noteq> [] \<and> hd r1 = CHR ''.'');
          fp = (if has_point then takeWhile is_digit (tl r1) else []);
          r2 = (if has_point then dropWhile is_digit (tl r1) else r1)
      in if ip = [] \<and> fp = [] then None
         else (case parse_exponent r2 of
                 None \<Rightarrow> None
               | Some e \<Rightarrow>
                   Some (of_nat (nat_of_digits (ip @ fp)) * pow10 (e - int (length fp)))))"

definition float_of_string :: "string \<Rightarrow> pyfloat option" where
  "float_of_string s =
     (case remove_underscores (CHR 0x00) (float_strip s) of
        None \<Rightarrow> None
      | Some t \<Rightarrow>
          (let (neg, body) = parse_sign t; word = map ascii_lower body
           in if word = ''inf'' \<or> word = ''infinity''
              then Some (if neg then NegInf else PosInf)
              else if word = ''nan'' then Some NaN
              else (case parse_decimal body of
                      None \<Rightarrow> None
                    | Some x \<Rightarrow> Some (round_binary64 (if neg then - x else x)))))"

section \<open>Field validators\<close>

definition is_alnum_len :: "string \<Rightarrow> nat \<Rightarrow> nat \<Rightarrow> bool" where
  "is_alnum_len value min_len max_len =
     (isalnum value \<and> min_len \<le> length value \<and> length value \<le> max_len)"

definition is_airport_code :: "string \<Rightarrow> bool" where
  "is_airport_code value = (length value = 3 \<and> isupper value \<and> isalpha value)"

text \<open>\<^verbatim>\<open>validate_price\<close> returns the float or raises a \<^verbatim>\<open>ValueError\<close>; \<open>Inl\<close> carries the
  text of the exception (what \<^verbatim>\<open>str(e)\<close> gives the caller): the message of \<^verbatim>\<open>float\<close>, or
  the function's own.\<close>

definition validate_price :: "string \<Rightarrow> string + pyfloat" where
  "validate_price value =
     (case float_of_string value of
        None \<Rightarrow> Inl (''could not convert string to float: '' @ repr value)
      | Some p \<Rightarrow>
          if pyfloat_le p (Finite 0) then Inl ''price must be positive'' else Inr p)"

section \<open>Record validator\<close>

record flight =
  flight_id :: string
  origin :: string
  destination :: string
  departure_datetime :: string
  arrival_datetime :: string
  price :: pyfloat

text \<open>
  The list \<^verbatim>\<open>errors\<close> that \<^verbatim>\<open>validate_flight_row\<close> builds from the six trimmed fields,
  in the order of the source: the identifier, the two airport codes, the two timestamps,
  the comparison of the timestamps (a \<^verbatim>\<open>datetime\<close> is always true in a condition, so
  \<^verbatim>\<open>dep_dt and arr_dt\<close> holds exactly when both were parsed), and the price.
\<close>

definition row_errors ::
  "string \<Rightarrow> string \<Rightarrow> string \<Rightarrow> string \<Rightarrow> string \<Rightarrow> string \<Rightarrow> string list" where
  "row_errors fid orig dest dep_dt_str arr_dt_str price_str =
     (let errors = [];
          errors = (if \<not> is_alnum_len fid 2 8 then errors @ [''invalid flight_id'']
                    else errors);
          errors = (if \<not> is_airport_code orig then errors @ [''invalid origin''] else errors);
          errors = (if \<not> is_airport_code dest then errors @ [''invalid destination'']
                    else errors);
          dep_dt = parse_datetime dep_dt_str;
          errors = (if dep_dt = None then errors @ [''invalid departure_datetime'']
                    else errors);
          arr_dt = parse_datetime arr_dt_str;
          errors = (if arr_dt = None then errors @ [''invalid arrival_datetime''] else errors);
          errors = (case (dep_dt, arr_dt) of
                      (Some d, Some a) \<Rightarrow>
                        if a \<le> d then errors @ [''arrival must be after departure'']
                        else errors
                    | _ \<Rightarrow> errors);
          errors = (case validate_price price_str of
                      Inl msg \<Rightarrow> errors @ [msg]
                    | Inr p \<Rightarrow> errors)
      in errors)"

text \<open>
  \<^verbatim>\<open>validate_flight_row\<close> returns \<^verbatim>\<open>(None, reason)\<close>, here \<open>Inl reason\<close>, or
  \<^verbatim>\<open>(record, None)\<close>, here \<open>Inr record\<close>. The line number is an argument that the
  function does not use. The local variables \<^verbatim>\<open>flight_id\<close>, \<^verbatim>\<open>origin\<close>,
  \<^verbatim>\<open>destination\<close> and \<^verbatim>\<open>price\<close> are \<open>fid\<close>, \<open>orig\<close>, \<open>dest\<close> and \<open>p\<close>, the names
  being taken by the fields of the record. When \<^verbatim>\<open>errors\<close> is empty the price was validated, so the last
  case below has no second branch to take.
\<close>

definition validate_flight_row :: "string \<Rightarrow> nat \<Rightarrow> string + flight" where
  "validate_flight_row line line_number =
     (let parts = str_split CHR '','' (strip line)
      in if length parts \<noteq> 6 then Inl ''missing required fields''
         else
           (case map strip parts of
              [fid, orig, dest, dep_dt_str, arr_dt_str, price_str] \<Rightarrow>
                (let errors =
                       row_errors fid orig dest dep_dt_str arr_dt_str price_str
                 in if errors \<noteq> [] then Inl (str_join ''; '' errors)
                    else
                      (case validate_price price_str of
                         Inr p \<Rightarrow>
                           Inr \<lparr>flight_id = fid, origin = orig, destination = dest,
                                departure_datetime = dep_dt_str,
                                arrival_datetime = arr_dt_str, price = p\<rparr>
                       | Inl msg \<Rightarrow> Inl (str_join ''; '' errors)))
            | _ \<Rightarrow> Inl ''missing required fields''))"

section \<open>Ingestion pipeline\<close>

text \<open>
  A source file, as \<^verbatim>\<open>parse_csv_file\<close> sees it: \<^verbatim>\<open>open\<close> raises, or the file object
  delivers lines one by one and then either ends or raises (an input/output error, or
  bytes that are not UTF-8 in a later block of the file).
\<close>

datatype read_end = EndOfFile | ReadError

datatype source_file = OpenError | Opened "string list" read_end

text \<open>The two lists that ingestion appends to: \<^verbatim>\<open>valid_flights\<close> and \<^verbatim>\<open>error_lines\<close>.\<close>

type_synonym ingest = "flight list \<times> string list"

text \<open>
  The body of the loop of \<^verbatim>\<open>parse_csv_file\<close> for one line and its number. The test
  \<^verbatim>\<open>if err\<close> separates the two results of \<^verbatim>\<open>validate_flight_row\<close>, since a reason is never
  the empty string (lemma \<open>validate_flight_row_reason\<close> below).
\<close>

definition parse_line :: "nat \<Rightarrow> string \<Rightarrow> ingest \<Rightarrow> ingest" where
  "parse_line line_number line st =
     (let s = strip line
      in if s = [] then st
         else if line_number = 1 \<and> str_contains ''flight_id'' s then st
         else if startswith s ''#''
           then (fst st, snd st @ [''Line '' @ str_of_nat line_number @ '': '' @ s @ '' -> comment''])
         else
           (case validate_flight_row line line_number of
              Inl err \<Rightarrow>
                (fst st, snd st @ [''Line '' @ str_of_nat line_number @ '': '' @ s @ '' -> '' @ err])
            | Inr flight \<Rightarrow> (fst st @ [flight], snd st)))"

text \<open>The loop over \<^verbatim>\<open>enumerate(f, start=1)\<close>: the result says whether the iteration
  raised, and holds the lists as they are at that moment.\<close>

fun read_lines :: "nat \<Rightarrow> string list \<Rightarrow> read_end \<Rightarrow> ingest \<Rightarrow> bool \<times> ingest" where
  "read_lines line_number [] EndOfFile st = (False, st)"
| "read_lines line_number [] ReadError st = (True, st)"
| "read_lines line_number (line # rest) e st =
     read_lines (Suc line_number) rest e (parse_line line_number line st)"

text \<open>\<^verbatim>\<open>parse_csv_file\<close>: the \<^verbatim>\<open>except: pass\<close> around the whole body drops the exception
  and leaves the lists as the loop left them. The file system is the function \<open>fs\<close>.\<close>

definition parse_csv_file :: "(string \<Rightarrow> source_file) \<Rightarrow> string \<Rightarrow> ingest \<Rightarrow> ingest" where
  "parse_csv_file fs path st =
     (case fs path of
        OpenError \<Rightarrow> st
      | Opened lines e \<Rightarrow> snd (read_lines 1 lines e st))"

text \<open>\<^verbatim>\<open>os.path.join(folder, "*.csv")\<close> on a POSIX system, for a folder name that is not
  empty.\<close>

definition path_join :: "string \<Rightarrow> string \<Rightarrow> string" where
  "path_join a b = (if a \<noteq> [] \<and> last a = CHR ''/'' then a @ b else a @ ''/'' @ b)"

text \<open>
  \<^verbatim>\<open>parse_input_sources\<close>: \<open>glob\<close> stands for \<^verbatim>\<open>glob.glob\<close>, the paths the system finds for
  a pattern, in any order; \<^verbatim>\<open>sorted\<close> orders them as strings. An argument is \<open>None\<close> or
  a string, and it counts in a condition when it is a string that is not empty.
\<close>

definition parse_input_sources ::
  "(string \<Rightarrow> source_file) \<Rightarrow> (string \<Rightarrow> string list) \<Rightarrow> string option \<Rightarrow> string option \<Rightarrow> ingest"
  where
  "parse_input_sources fs glob csv_file folder =
     (let st = ([], []);
          st = (case csv_file of
                  None \<Rightarrow> st
                | Some path \<Rightarrow> if path \<noteq> [] then parse_csv_file fs path st else st);
          st = (case folder of
                  None \<Rightarrow> st
                | Some dir \<Rightarrow>
                    if dir \<noteq> []
                    then foldl (\<lambda>st p. parse_csv_file fs p st) st
                           (sort (glob (path_join dir ''*.csv'')))
                    else st)
      in st)"

section \<open>Query engine\<close>

text \<open>A query is a JSON object as \<^verbatim>\<open>json.load\<close> returns it: a dictionary from strings to
  JSON values.\<close>

datatype json =
  JNull | JBool bool | JInt int | JFloat pyfloat | JStr string | JArr "json list"
  | JObj "(string \<times> json) list"

type_synonym query = "string \<rightharpoonup> json"

text \<open>
  \<^verbatim>\<open>float(x)\<close> for such a value; \<open>None\<close> stands for an exception: a \<^verbatim>\<open>TypeError\<close> for
  \<^verbatim>\<open>None\<close>, a list or a dictionary, the \<^verbatim>\<open>ValueError\<close> of a string that is no number,
  the \<^verbatim>\<open>OverflowError\<close> of an integer too large for binary64. A Boolean is the integer
  1 or 0.
\<close>

definition py_float :: "json \<Rightarrow> pyfloat option" where
  "py_float x =
     (case x of
        JNull \<Rightarrow> None
      | JBool b \<Rightarrow> Some (Finite (if b then 1 else 0))
      | JInt n \<Rightarrow> (case round_binary64 (of_int n) of Finite r \<Rightarrow> Some (Finite r) | _ \<Rightarrow> None)
      | JFloat f \<Rightarrow> Some f
      | JStr s \<Rightarrow> float_of_string s
      | JArr _ \<Rightarrow> None
      | JObj _ \<Rightarrow> None)"

text \<open>\<^verbatim>\<open>parse_datetime(x)\<close> for such a value: \<^verbatim>\<open>strptime\<close> raises a \<^verbatim>\<open>TypeError\<close> for
  anything that is not a string.\<close>

definition parse_datetime_value :: "json \<Rightarrow> datetime option" where
  "parse_datetime_value x = (case x of JStr s \<Rightarrow> parse_datetime s | _ \<Rightarrow> None)"

text \<open>
  \<^verbatim>\<open>flight_matches_query\<close>, for a stored record with its six fields. A string field
  differs from the value of the query unless that value is the same string. A
  \<^verbatim>\<open>try\<close> block returns \<^verbatim>\<open>False\<close> when its comparison holds and when a conversion
  raises (the \<open>None\<close> cases); \<^verbatim>\<open>float\<close> of the record's price, a float, is the price.
\<close>

definition flight_matches_query :: "flight \<Rightarrow> query \<Rightarrow> bool" where
  "flight_matches_query flight q =
     (if q ''flight_id'' \<noteq> None \<and> JStr (flight_id flight) \<noteq> the (q ''flight_id'') then False
      else if q ''origin'' \<noteq> None \<and> JStr (origin flight) \<noteq> the (q ''origin'') then False
      else if q ''destination'' \<noteq> None \<and> JStr (destination flight) \<noteq> the (q ''destination'')
        then False
      else if q ''price'' \<noteq> None \<and>
              (case py_float (the (q ''price'')) of
                 None \<Rightarrow> True
               | Some qp \<Rightarrow> pyfloat_less qp (price flight))
        then False
      else if q ''departure_datetime'' \<noteq> None \<and>
              (case parse_datetime (departure_datetime flight) of
                 None \<Rightarrow> True
               | Some rd \<Rightarrow>
                   (case parse_datetime_value (the (q ''departure_datetime'')) of
                      None \<Rightarrow> True
                    | Some qd \<Rightarrow> rd < qd))
        then False
      else if q ''arrival_datetime'' \<noteq> None \<and>
              (case parse_datetime (arrival_datetime flight) of
                 None \<Rightarrow> True
               | Some ra \<Rightarrow>
                   (case parse_datetime_value (the (q ''arrival_datetime'')) of
                      None \<Rightarrow> True
                    | Some qa \<Rightarrow> qa < ra))
        then False
      else True)"

text \<open>The matches of one query, as \<^verbatim>\<open>run_queries_and_save\<close> collects them, and the results
  for a sequence of queries (what the function then writes to the response file).\<close>

definition query_matches :: "flight list \<Rightarrow> query \<Rightarrow> flight list" where
  "query_matches db q = filter (\<lambda>f. flight_matches_query f q) db"

definition run_queries :: "flight list \<Rightarrow> query list \<Rightarrow> (query \<times> flight list) list" where
  "run_queries db queries = map (\<lambda>q. (q, query_matches db q)) queries"

section \<open>Splitting and trimming\<close>

text \<open>Trimming a line before splitting it changes only the whitespace at the outer ends
  of the first and the last field, which the trimming of the fields removes anyway.\<close>

lemma comma_not_space: "\<not> isspace_char CHR '',''"
  by (simp add: isspace_char_def between_def code_point_def)

lemma str_split_not_Nil: "str_split sep s \<noteq> []"
  by (induction s) (auto split: list.splits)

lemma str_split_no_sep: "sep \<notin> set s \<Longrightarrow> str_split sep s = [s]"
  by (induction s) auto

lemma str_split_dropWhile:
  "\<not> P sep \<Longrightarrow>
   str_split sep (dropWhile P s) = dropWhile P (hd (str_split sep s)) # tl (str_split sep s)"
  by (induction s) (auto split: list.splits simp: str_split_not_Nil)

lemma str_split_snoc:
  "str_split sep (xs @ [c]) =
     (if c = sep then str_split sep xs @ [[]]
      else butlast (str_split sep xs) @ [last (str_split sep xs) @ [c]])"
  by (induction xs) (auto split: list.splits simp: str_split_not_Nil)

lemma str_split_rev: "str_split sep (rev s) = rev (map rev (str_split sep s))"
proof (induction s)
  case Nil
  show ?case by simp
next
  case (Cons c cs)
  obtain w ws where r: "str_split sep cs = w # ws"
    using str_split_not_Nil by (cases "str_split sep cs") auto
  show ?case
    using Cons r by (simp add: str_split_snoc)
qed

lemma str_split_rstrip:
  assumes "\<not> P sep"
  shows "str_split sep (rev (dropWhile P (rev s))) =
         butlast (str_split sep s) @ [rev (dropWhile P (rev (last (str_split sep s))))]"
proof -
  obtain rs w where r: "str_split sep s = rs @ [w]"
    using str_split_not_Nil by (cases "str_split sep s" rule: rev_cases) auto
  have "str_split sep (rev s) = rev w # rev (map rev rs)"
    by (simp add: str_split_rev r)
  then have "str_split sep (dropWhile P (rev s)) = dropWhile P (rev w) # rev (map rev rs)"
    using assms by (simp add: str_split_dropWhile)
  then show ?thesis
    by (simp add: str_split_rev[of sep "dropWhile P (rev s)"] r rev_map)
qed

lemma rstrip_lstrip_commute: "lstrip (rstrip x) = rstrip (lstrip x)"
  unfolding lstrip_def rstrip_def
  by (induction x) (auto simp: dropWhile_append dest: set_dropWhileD)

lemma strip_lstrip: "strip (lstrip x) = strip x"
  by (simp add: strip_def lstrip_def)

lemma strip_rstrip: "strip (rstrip x) = strip x"
  by (simp add: strip_def rstrip_lstrip_commute) (simp add: rstrip_def)

lemma strip_strip: "strip (strip x) = strip x"
  using strip_rstrip[of "lstrip x"] by (simp add: strip_def[symmetric] strip_lstrip)

lemma str_split_strip:
  "map strip (str_split CHR '','' (strip line)) = map strip (str_split CHR '','' line)"
proof -
  let ?r = "str_split CHR '','' line"
  obtain w ws where r: "?r = w # ws"
    using str_split_not_Nil by (cases ?r) auto
  have l: "str_split CHR '','' (lstrip line) = lstrip w # ws"
    unfolding lstrip_def using comma_not_space r by (simp add: str_split_dropWhile)
  have "str_split CHR '','' (strip line) =
        butlast (lstrip w # ws) @ [rstrip (last (lstrip w # ws))]"
    unfolding strip_def rstrip_def
    using str_split_rstrip[of isspace_char "CHR '',''" "lstrip line"] comma_not_space l
    by simp
  then show ?thesis
    using r by (cases ws rule: rev_cases) (auto simp: strip_lstrip strip_rstrip strip_strip strip_def[symmetric])
qed

lemma length_str_split_strip:
  "length (str_split CHR '','' (strip line)) = length (str_split CHR '','' line)"
  using arg_cong[OF str_split_strip, of length line] by simp

lemma length_str_split: "length (str_split sep s) = Suc (length (filter (\<lambda>c. c = sep) s))"
  by (induction s) (auto split: list.splits simp: str_split_not_Nil)

section \<open>The record validator\<close>

lemma isupper_not_islower: "isupper_char c \<Longrightarrow> \<not> islower_char c"
  by (auto simp: isupper_char_def islower_char_def between_def)

lemma uppercase_letters_airport_code:
  assumes "length s = 3" and "list_all (\<lambda>c. isupper_char c \<and> isalpha_char c) s"
  shows "is_airport_code s"
proof -
  from assms(1) obtain a b c where s: "s = [a, b, c]"
    by (auto simp: length_Suc_conv numeral_3_eq_3)
  with assms(2) show ?thesis
    by (simp add: is_airport_code_def isupper_def isalpha_def isupper_not_islower)
qed

lemma positive_not_le_zero: "pyfloat_less (Finite 0) p \<Longrightarrow> \<not> pyfloat_le p (Finite 0)"
  by (cases p) (auto simp: pyfloat_le_def)

lemma validate_price_positive:
  "float_of_string s = Some p \<Longrightarrow> pyfloat_less (Finite 0) p \<Longrightarrow> validate_price s = Inr p"
  by (simp add: validate_price_def positive_not_le_zero)

text \<open>What the function computes for a line of six fields, in terms of the fields of the
  line as it came.\<close>

lemma validate_flight_row_fields:
  assumes "str_split CHR '','' line = [f1, f2, f3, f4, f5, f6]"
  shows "validate_flight_row line n =
    (let errors = row_errors (strip f1) (strip f2) (strip f3) (strip f4) (strip f5) (strip f6)
     in if errors \<noteq> [] then Inl (str_join ''; '' errors)
        else (case validate_price (strip f6) of
                Inr p \<Rightarrow> Inr \<lparr>flight_id = strip f1, origin = strip f2, destination = strip f3,
                    departure_datetime = strip f4, arrival_datetime = strip f5, price = p\<rparr>
              | Inl msg \<Rightarrow> Inl (str_join ''; '' errors)))"
proof -
  have m: "map strip (str_split CHR '','' (strip line)) =
           [strip f1, strip f2, strip f3, strip f4, strip f5, strip f6]"
    using str_split_strip[of line] assms by simp
  have l: "length (str_split CHR '','' (strip line)) = 6"
    using length_str_split_strip[of line] assms by simp
  show ?thesis
    unfolding validate_flight_row_def by (simp add: l m Let_def)
qed

text \<open>The list of reasons is the concatenation of seven parts, one per check.\<close>

lemma row_errors_shape:
  "row_errors a b c d e f =
     (if \<not> is_alnum_len a 2 8 then [''invalid flight_id''] else []) @
     (if \<not> is_airport_code b then [''invalid origin''] else []) @
     (if \<not> is_airport_code c then [''invalid destination''] else []) @
     (if parse_datetime d = None then [''invalid departure_datetime''] else []) @
     (if parse_datetime e = None then [''invalid arrival_datetime''] else []) @
     (if \<exists>dep arr. parse_datetime d = Some dep \<and> parse_datetime e = Some arr \<and> arr \<le> dep
      then [''arrival must be after departure''] else []) @
     (case validate_price f of Inl msg \<Rightarrow> [msg] | Inr p \<Rightarrow> [])"
  by (cases "parse_datetime d"; cases "parse_datetime e"; cases "validate_price f")
     (simp_all add: row_errors_def)

lemma validate_price_message:
  "validate_price s = Inl msg \<Longrightarrow> msg \<noteq> ''arrival must be after departure''"
  by (auto simp: validate_price_def split: option.splits if_splits)

lemma validate_price_reason: "validate_price s = Inl msg \<Longrightarrow> msg \<noteq> []"
  by (auto simp: validate_price_def split: option.splits if_splits)

lemma row_errors_reasons: "msg \<in> set (row_errors a b c d e f) \<Longrightarrow> msg \<noteq> []"
  unfolding row_errors_shape
  by (cases "validate_price f") (auto dest: validate_price_reason split: if_splits)

lemma str_join_empty: "str_join sep xs = [] \<Longrightarrow> xs \<noteq> [] \<Longrightarrow> \<exists>x\<in>set xs. x = []"
  by (induction sep xs rule: str_join.induct) auto

lemma validate_price_accepts:
  "row_errors a b c d e f = [] \<Longrightarrow> \<exists>p. validate_price f = Inr p"
  unfolding row_errors_shape by (cases "validate_price f") auto

text \<open>A reason is never the empty string, so \<^verbatim>\<open>if err\<close> in \<^verbatim>\<open>parse_csv_file\<close> holds exactly
  when the validator returned a reason.\<close>

lemma validate_flight_row_reason: "validate_flight_row line n = Inl err \<Longrightarrow> err \<noteq> []"
proof -
  assume r: "validate_flight_row line n = Inl err"
  show "err \<noteq> []"
  proof (cases "map strip (str_split CHR '','' (strip line))")
    case Nil
    with r show ?thesis by (auto simp: validate_flight_row_def split: if_splits)
  next
    case (Cons x xs)
    show ?thesis
    proof (cases "length (str_split CHR '','' (strip line)) = 6")
      case False
      with r show ?thesis by (auto simp: validate_flight_row_def)
    next
      case True
      then have "length (map strip (str_split CHR '','' (strip line))) = 6" by simp
      then obtain a b c d e f where
        m: "map strip (str_split CHR '','' (strip line)) = [a, b, c, d, e, f]"
        by (auto simp: length_Suc_conv eval_nat_numeral)
      show ?thesis
      proof (cases "row_errors a b c d e f = []")
        case True
        then obtain p where "validate_price f = Inr p"
          using validate_price_accepts by blast
        with r m \<open>length (str_split CHR '','' (strip line)) = 6\<close> True show ?thesis
          by (simp add: validate_flight_row_def)
      next
        case False
        with r m \<open>length (str_split CHR '','' (strip line)) = 6\<close>
        have "err = str_join ''; '' (row_errors a b c d e f)"
          by (simp add: validate_flight_row_def)
        with False show ?thesis
          using str_join_empty[of "''; ''" "row_errors a b c d e f"]
            row_errors_reasons[of _ a b c d e f]
          by auto
      qed
    qed
  qed
qed

text \<open>
  C1. A line that splits on the comma into six fields, each of which passes its check
  after trimming (an identifier that is alphanumeric and 2 to 8 characters long, two
  codes of 3 uppercase letters, two timestamps that parse, the arrival after the
  departure, a price that parses as a number greater than 0) gives a record and no reason;
  the record holds the trimmed strings and the parsed price.
\<close>

theorem valid_row_accepted:
  assumes "str_split CHR '','' line = [f1, f2, f3, f4, f5, f6]"
    and "isalnum (strip f1)" and "2 \<le> length (strip f1)" and "length (strip f1) \<le> 8"
    and "length (strip f2) = 3"
    and "list_all (\<lambda>c. isupper_char c \<and> isalpha_char c) (strip f2)"
    and "length (strip f3) = 3"
    and "list_all (\<lambda>c. isupper_char c \<and> isalpha_char c) (strip f3)"
    and "parse_datetime (strip f4) = Some dep" and "parse_datetime (strip f5) = Some arr"
    and "dep < arr"
    and "float_of_string (strip f6) = Some p" and "pyfloat_less (Finite 0) p"
  shows "validate_flight_row line n =
           Inr \<lparr>flight_id = strip f1, origin = strip f2, destination = strip f3,
                departure_datetime = strip f4, arrival_datetime = strip f5, price = p\<rparr>"
proof -
  have id: "is_alnum_len (strip f1) 2 8"
    using assms(2-4) by (simp add: is_alnum_len_def)
  have o: "is_airport_code (strip f2)" and d: "is_airport_code (strip f3)"
    using assms(5-8) by (simp_all add: uppercase_letters_airport_code)
  have pr: "validate_price (strip f6) = Inr p"
    using assms(12,13) by (rule validate_price_positive)
  have "\<not> arr \<le> dep" using assms(11) by simp
  then have "row_errors (strip f1) (strip f2) (strip f3) (strip f4) (strip f5) (strip f6) = []"
    by (simp add: row_errors_def id o d pr assms(9,10))
  then show ?thesis
    by (simp add: validate_flight_row_fields[OF assms(1)] pr)
qed

theorem valid_row_accepted_witness:
  "validate_flight_row ''AB12,JFK,LAX,2024-01-01 08:00,2024-01-01 10:00,100'' 1 =
     Inr \<lparr>flight_id = ''AB12'', origin = ''JFK'', destination = ''LAX'',
          departure_datetime = ''2024-01-01 08:00'', arrival_datetime = ''2024-01-01 10:00'',
          price = Finite 100\<rparr>"
proof -
  have fields: "str_split CHR '','' ''AB12,JFK,LAX,2024-01-01 08:00,2024-01-01 10:00,100'' =
      [''AB12'', ''JFK'', ''LAX'', ''2024-01-01 08:00'', ''2024-01-01 10:00'', ''100'']"
    by simp
  have trimmed: "strip ''AB12'' = ''AB12''" "strip ''JFK'' = ''JFK''" "strip ''LAX'' = ''LAX''"
      "strip ''2024-01-01 08:00'' = ''2024-01-01 08:00''"
      "strip ''2024-01-01 10:00'' = ''2024-01-01 10:00''" "strip ''100'' = ''100''"
    by code_simp+
  have ident: "isalnum (strip ''AB12'')" "2 \<le> length (strip ''AB12'')"
      "length (strip ''AB12'') \<le> 8"
    by code_simp+
  have orig: "length (strip ''JFK'') = 3"
      "list_all (\<lambda>c. isupper_char c \<and> isalpha_char c) (strip ''JFK'')"
    by code_simp+
  have dest: "length (strip ''LAX'') = 3"
      "list_all (\<lambda>c. isupper_char c \<and> isalpha_char c) (strip ''LAX'')"
    by code_simp+
  have dep: "parse_datetime (strip ''2024-01-01 08:00'') = Some (2024, 1, 1, 8, 0)"
    by code_simp
  have arr: "parse_datetime (strip ''2024-01-01 10:00'') = Some (2024, 1, 1, 10, 0)"
    by code_simp
  have later: "((2024, 1, 1, 8, 0) :: datetime) < (2024, 1, 1, 10, 0)"
    by simp
  have amount: "float_of_string (strip ''100'') = Some (Finite 100)"
    by code_simp
  have positive: "pyfloat_less (Finite 0) (Finite 100)"
    by simp
  show ?thesis
    using valid_row_accepted[OF fields ident orig dest dep arr later amount positive, of 1]
    by (simp only: trimmed)
qed

text \<open>
  C3. A line that splits on the comma into a number of fields other than six gives no
  record, and the reason is \<^verbatim>\<open>missing required fields\<close> alone, whatever the fields hold.
\<close>

theorem wrong_field_count_rejected:
  "length (str_split CHR '','' line) \<noteq> 6 \<Longrightarrow>
   validate_flight_row line n = Inl ''missing required fields''"
  by (simp add: validate_flight_row_def length_str_split_strip)

theorem wrong_field_count_rejected_witness:
  "validate_flight_row ''AB12,JFK,LAX,2024-01-01 08:00,100'' 3 = Inl ''missing required fields''
   \<and> validate_flight_row ''AB12,JFK,LAX,2024-01-01 08:00,2024-01-01 10:00,100,x'' 4 =
       Inl ''missing required fields''"
  using wrong_field_count_rejected[of "''AB12,JFK,LAX,2024-01-01 08:00,100''" 3]
    wrong_field_count_rejected[of "''AB12,JFK,LAX,2024-01-01 08:00,2024-01-01 10:00,100,x''" 4]
  by simp

text \<open>
  C4. For a line of six fields, the list of reasons holds
  \<^verbatim>\<open>arrival must be after departure\<close> exactly when both timestamps parse and the arrival
  is not after the departure; the reasons are what the validator returns, joined, when
  there is one, and a record is returned when there is none.
\<close>

theorem arrival_reason_iff:
  assumes "str_split CHR '','' line = [f1, f2, f3, f4, f5, f6]"
  shows "(''arrival must be after departure''
            \<in> set (row_errors (strip f1) (strip f2) (strip f3) (strip f4) (strip f5) (strip f6))
          \<longleftrightarrow> (\<exists>dep arr. parse_datetime (strip f4) = Some dep
                \<and> parse_datetime (strip f5) = Some arr \<and> arr \<le> dep))
       \<and> (row_errors (strip f1) (strip f2) (strip f3) (strip f4) (strip f5) (strip f6) \<noteq> []
          \<longrightarrow> validate_flight_row line n =
                Inl (str_join ''; ''
                  (row_errors (strip f1) (strip f2) (strip f3) (strip f4) (strip f5) (strip f6))))
       \<and> (row_errors (strip f1) (strip f2) (strip f3) (strip f4) (strip f5) (strip f6) = []
          \<longrightarrow> (\<exists>r. validate_flight_row line n = Inr r))"
proof -
  let ?errors = "row_errors (strip f1) (strip f2) (strip f3) (strip f4) (strip f5) (strip f6)"
  have "''arrival must be after departure'' \<notin>
          set (case validate_price (strip f6) of Inl msg \<Rightarrow> [msg] | Inr p \<Rightarrow> [])"
    using validate_price_message[of "strip f6"] by (cases "validate_price (strip f6)") auto
  then have first: "''arrival must be after departure'' \<in> set ?errors
      \<longleftrightarrow> (\<exists>dep arr. parse_datetime (strip f4) = Some dep
            \<and> parse_datetime (strip f5) = Some arr \<and> arr \<le> dep)"
    unfolding row_errors_shape by simp
  have second: "?errors \<noteq> [] \<longrightarrow> validate_flight_row line n = Inl (str_join ''; '' ?errors)"
    by (simp add: validate_flight_row_fields[OF assms])
  have third: "?errors = [] \<longrightarrow> (\<exists>r. validate_flight_row line n = Inr r)"
  proof
    assume e: "?errors = []"
    then obtain p where "validate_price (strip f6) = Inr p"
      using validate_price_accepts by blast
    with e show "\<exists>r. validate_flight_row line n = Inr r"
      by (simp add: validate_flight_row_fields[OF assms])
  qed
  from first second third show ?thesis by blast
qed

theorem arrival_reason_iff_witness:
  "''arrival must be after departure''
     \<in> set (row_errors ''AB12'' ''JFK'' ''LAX'' ''2024-01-01 10:00'' ''2024-01-01 08:00'' ''100'')
   \<and> validate_flight_row ''AB12,JFK,LAX,2024-01-01 10:00,2024-01-01 08:00,100'' 1 =
       Inl ''arrival must be after departure''
   \<and> ''arrival must be after departure''
       \<notin> set (row_errors ''AB12'' ''JFK'' ''LAX'' ''2024-01-01 10:00'' ''soon'' ''100'')"
proof -
  have fields: "str_split CHR '','' ''AB12,JFK,LAX,2024-01-01 10:00,2024-01-01 08:00,100'' =
      [''AB12'', ''JFK'', ''LAX'', ''2024-01-01 10:00'', ''2024-01-01 08:00'', ''100'']"
    by simp
  have fields': "str_split CHR '','' ''AB12,JFK,LAX,2024-01-01 10:00,soon,100'' =
      [''AB12'', ''JFK'', ''LAX'', ''2024-01-01 10:00'', ''soon'', ''100'']"
    by simp
  have trimmed: "strip ''AB12'' = ''AB12''" "strip ''JFK'' = ''JFK''" "strip ''LAX'' = ''LAX''"
      "strip ''2024-01-01 08:00'' = ''2024-01-01 08:00''"
      "strip ''2024-01-01 10:00'' = ''2024-01-01 10:00''" "strip ''100'' = ''100''"
      "strip ''soon'' = ''soon''"
    by code_simp+
  have dep: "parse_datetime ''2024-01-01 10:00'' = Some (2024, 1, 1, 10, 0)"
    by code_simp
  have arr: "parse_datetime ''2024-01-01 08:00'' = Some (2024, 1, 1, 8, 0)"
    by code_simp
  have soon: "parse_datetime ''soon'' = None"
    by code_simp
  have reasons:
    "row_errors ''AB12'' ''JFK'' ''LAX'' ''2024-01-01 10:00'' ''2024-01-01 08:00'' ''100'' =
       [''arrival must be after departure'']"
    by code_simp
  show ?thesis
    using arrival_reason_iff[OF fields, of 1] arrival_reason_iff[OF fields', of 1]
    by (simp add: trimmed dep arr soon reasons)
qed

text \<open>
  C10. The result of the validator does not depend on the line number it is given.
\<close>

theorem line_number_irrelevant: "validate_flight_row line n1 = validate_flight_row line n2"
  by (simp add: validate_flight_row_def)

theorem line_number_irrelevant_witness:
  "validate_flight_row ''AB12,JFK,LAX,2024-01-01 08:00,2024-01-01 10:00,100'' 1 =
   validate_flight_row ''AB12,JFK,LAX,2024-01-01 08:00,2024-01-01 10:00,100'' 42"
  by (rule line_number_irrelevant)

text \<open>The accepted row of the specification's example, for the evaluations below.\<close>

lemma example_row:
  "validate_flight_row ''AB12,JFK,LAX,2024-01-01 08:00,2024-01-01 10:00,100'' 1 =
     Inr \<lparr>flight_id = ''AB12'', origin = ''JFK'', destination = ''LAX'',
          departure_datetime = ''2024-01-01 08:00'', arrival_datetime = ''2024-01-01 10:00'',
          price = Finite 100\<rparr>"
proof -
  have fields: "str_split CHR '','' ''AB12,JFK,LAX,2024-01-01 08:00,2024-01-01 10:00,100'' =
      [''AB12'', ''JFK'', ''LAX'', ''2024-01-01 08:00'', ''2024-01-01 10:00'', ''100'']"
    by simp
  have trimmed: "strip ''AB12'' = ''AB12''" "strip ''JFK'' = ''JFK''" "strip ''LAX'' = ''LAX''"
      "strip ''2024-01-01 08:00'' = ''2024-01-01 08:00''"
      "strip ''2024-01-01 10:00'' = ''2024-01-01 10:00''" "strip ''100'' = ''100''"
    by code_simp+
  have amount: "validate_price ''100'' = Inr (Finite 100)"
    by code_simp
  have reasons:
    "row_errors ''AB12'' ''JFK'' ''LAX'' ''2024-01-01 08:00'' ''2024-01-01 10:00'' ''100'' = []"
    by code_simp
  show ?thesis
    by (simp add: validate_flight_row_fields[OF fields] trimmed amount reasons)
qed

text \<open>
  What every returned record satisfies: the checks of the code on the identifier, the
  two codes and the two timestamps, and a price that \<^verbatim>\<open>validate_price\<close> returned, that is, a
  float \<open>p\<close> for which \<^verbatim>\<open>p <= 0\<close> is false.
\<close>

theorem validate_flight_row_record:
  assumes "validate_flight_row line n = Inr r"
  shows "is_alnum_len (flight_id r) 2 8 \<and> is_airport_code (origin r) \<and>
         is_airport_code (destination r) \<and>
         (\<exists>dep arr. parse_datetime (departure_datetime r) = Some dep \<and>
            parse_datetime (arrival_datetime r) = Some arr \<and> dep < arr) \<and>
         validate_price (strip (last (str_split CHR '','' line))) = Inr (price r) \<and>
         \<not> pyfloat_le (price r) (Finite 0)"
proof -
  have six: "length (str_split CHR '','' line) = 6"
  proof (rule ccontr)
    assume "length (str_split CHR '','' line) \<noteq> 6"
    then have "validate_flight_row line n = Inl ''missing required fields''"
      by (simp add: validate_flight_row_def length_str_split_strip)
    with assms show False by simp
  qed
  then obtain f1 f2 f3 f4 f5 f6 where
    fields: "str_split CHR '','' line = [f1, f2, f3, f4, f5, f6]"
    by (auto simp: length_Suc_conv eval_nat_numeral)
  let ?errors = "row_errors (strip f1) (strip f2) (strip f3) (strip f4) (strip f5) (strip f6)"
  have none: "?errors = []"
  proof (rule ccontr)
    assume "?errors \<noteq> []"
    then have "validate_flight_row line n = Inl (str_join ''; '' ?errors)"
      by (simp add: validate_flight_row_fields[OF fields])
    with assms show False by simp
  qed
  then obtain p where p: "validate_price (strip f6) = Inr p"
    using validate_price_accepts by blast
  with none assms have r: "r = \<lparr>flight_id = strip f1, origin = strip f2, destination = strip f3,
      departure_datetime = strip f4, arrival_datetime = strip f5, price = p\<rparr>"
    by (simp add: validate_flight_row_fields[OF fields])
  from none have checks:
    "is_alnum_len (strip f1) 2 8" "is_airport_code (strip f2)" "is_airport_code (strip f3)"
    "parse_datetime (strip f4) \<noteq> None" "parse_datetime (strip f5) \<noteq> None"
    "\<not> (\<exists>dep arr. parse_datetime (strip f4) = Some dep \<and>
          parse_datetime (strip f5) = Some arr \<and> arr \<le> dep)"
    unfolding row_errors_shape by (auto split: if_splits)
  from checks(4,5) obtain dep arr where
    d: "parse_datetime (strip f4) = Some dep" and a: "parse_datetime (strip f5) = Some arr"
    by auto
  with checks(6) have "dep < arr" by auto
  moreover from p have "\<not> pyfloat_le p (Finite 0)"
    by (auto simp: validate_price_def split: option.splits if_splits)
  ultimately show ?thesis
    using r checks(1-3) d a p fields by simp
qed

theorem validate_flight_row_record_witness:
  "is_alnum_len ''AB12'' 2 8 \<and> is_airport_code ''JFK'' \<and> is_airport_code ''LAX'' \<and>
   (\<exists>dep arr. parse_datetime ''2024-01-01 08:00'' = Some dep \<and>
      parse_datetime ''2024-01-01 10:00'' = Some arr \<and> dep < arr) \<and>
   \<not> pyfloat_le (Finite 100) (Finite 0)"
  using validate_flight_row_record[OF example_row] by simp

text \<open>
  C5. The claim is that every returned record has a price that is a positive real
  number. The check \<^verbatim>\<open>p <= 0\<close> of \<^verbatim>\<open>validate_price\<close> is false for not-a-number, which
  \<^verbatim>\<open>float\<close> reads from the text \<^verbatim>\<open>nan\<close>: the row below is accepted, with a price that is
  no number and is not greater than 0.
\<close>

theorem nan_price_accepted:
  "validate_flight_row ''AB12,JFK,LAX,2024-01-01 08:00,2024-01-01 10:00,nan'' 1 =
     Inr \<lparr>flight_id = ''AB12'', origin = ''JFK'', destination = ''LAX'',
          departure_datetime = ''2024-01-01 08:00'', arrival_datetime = ''2024-01-01 10:00'',
          price = NaN\<rparr>
   \<and> \<not> pyfloat_less (Finite 0) NaN"
proof -
  have fields: "str_split CHR '','' ''AB12,JFK,LAX,2024-01-01 08:00,2024-01-01 10:00,nan'' =
      [''AB12'', ''JFK'', ''LAX'', ''2024-01-01 08:00'', ''2024-01-01 10:00'', ''nan'']"
    by simp
  have trimmed: "strip ''AB12'' = ''AB12''" "strip ''JFK'' = ''JFK''" "strip ''LAX'' = ''LAX''"
      "strip ''2024-01-01 08:00'' = ''2024-01-01 08:00''"
      "strip ''2024-01-01 10:00'' = ''2024-01-01 10:00''" "strip ''nan'' = ''nan''"
    by code_simp+
  have amount: "validate_price ''nan'' = Inr NaN"
    by code_simp
  have reasons:
    "row_errors ''AB12'' ''JFK'' ''LAX'' ''2024-01-01 08:00'' ''2024-01-01 10:00'' ''nan'' = []"
    by code_simp
  show ?thesis
    by (simp add: validate_flight_row_fields[OF fields] trimmed amount reasons)
qed

section \<open>The ingestion pipeline\<close>

lemma read_lines_end: "snd (read_lines n ls e st) = snd (read_lines n ls EndOfFile st)"
  by (induction n ls e st rule: read_lines.induct) simp_all

lemma parse_csv_file_cong:
  assumes "\<And>p. fs p = fs' p \<or> (\<exists>ls e e'. fs p = Opened ls e \<and> fs' p = Opened ls e')
     \<or> (\<exists>e. fs p = OpenError \<and> fs' p = Opened [] e)"
  shows "parse_csv_file fs = parse_csv_file fs'"
proof (intro ext)
  fix p st
  from assms[of p] show "parse_csv_file fs p st = parse_csv_file fs' p st"
  proof (elim disjE exE conjE)
    assume "fs p = fs' p"
    then show ?thesis by (simp add: parse_csv_file_def)
  next
    fix ls e e' assume "fs p = Opened ls e" "fs' p = Opened ls e'"
    then show ?thesis
      using read_lines_end[of 1 ls e st] read_lines_end[of 1 ls e' st]
      by (simp add: parse_csv_file_def)
  next
    fix e assume "fs p = OpenError" "fs' p = Opened [] e"
    then show ?thesis by (cases e) (simp_all add: parse_csv_file_def)
  qed
qed

lemma parse_input_sources_cong:
  assumes "parse_csv_file fs = parse_csv_file fs'"
  shows "parse_input_sources fs glob csv folder = parse_input_sources fs' glob csv folder"
  unfolding parse_input_sources_def assms by (rule refl)

text \<open>
  C8, as the code has it. A source that cannot be opened adds nothing to the two lists,
  and the whole ingestion runs as if the file were empty. A source whose reading fails
  after it delivered the lines \<open>ls\<close> is ingested as the file that holds these lines and
  ends there: what the delivered lines added stays. In both cases no error comes out of
  \<^verbatim>\<open>parse_csv_file\<close>, and the other sources are processed as usual.
\<close>

theorem failed_source_contribution:
  "(fs path = OpenError \<longrightarrow>
      parse_csv_file fs path st = st \<and>
      parse_input_sources fs glob csv_file folder =
        parse_input_sources (fs(path := Opened [] EndOfFile)) glob csv_file folder)
   \<and> (fs path = Opened ls ReadError \<longrightarrow>
      parse_csv_file fs path st = snd (read_lines 1 ls EndOfFile st) \<and>
      parse_input_sources fs glob csv_file folder =
        parse_input_sources (fs(path := Opened ls EndOfFile)) glob csv_file folder)"
proof (intro conjI impI)
  assume "fs path = OpenError"
  then show "parse_csv_file fs path st = st" by (simp add: parse_csv_file_def)
next
  assume f: "fs path = OpenError"
  have "parse_csv_file fs = parse_csv_file (fs(path := Opened [] EndOfFile))"
    by (rule parse_csv_file_cong) (use f in auto)
  then show "parse_input_sources fs glob csv_file folder =
        parse_input_sources (fs(path := Opened [] EndOfFile)) glob csv_file folder"
    by (rule parse_input_sources_cong)
next
  assume "fs path = Opened ls ReadError"
  then show "parse_csv_file fs path st = snd (read_lines 1 ls EndOfFile st)"
    using read_lines_end[of 1 ls ReadError st] by (simp add: parse_csv_file_def)
next
  assume f: "fs path = Opened ls ReadError"
  have "parse_csv_file fs = parse_csv_file (fs(path := Opened ls EndOfFile))"
    by (rule parse_csv_file_cong) (use f in auto)
  then show "parse_input_sources fs glob csv_file folder =
        parse_input_sources (fs(path := Opened ls EndOfFile)) glob csv_file folder"
    by (rule parse_input_sources_cong)
qed

theorem failed_source_contribution_witness:
  "parse_csv_file (\<lambda>p. OpenError) ''missing.csv'' ([], [''Line 1: #x -> comment'']) =
     ([], [''Line 1: #x -> comment''])
   \<and> parse_csv_file (\<lambda>p. Opened [''#x''] ReadError) ''cut.csv'' ([], []) =
     snd (read_lines 1 [''#x''] EndOfFile ([], []))
   \<and> parse_input_sources (\<lambda>p. OpenError) (\<lambda>pat. []) (Some ''missing.csv'') None =
     parse_input_sources ((\<lambda>p. OpenError)(''missing.csv'' := Opened [] EndOfFile)) (\<lambda>pat. [])
       (Some ''missing.csv'') None"
  using failed_source_contribution[where fs = "\<lambda>p. OpenError" and path = "''missing.csv''"
      and st = "([], [''Line 1: #x -> comment''])" and glob = "\<lambda>pat. []"
      and csv_file = "Some ''missing.csv''" and folder = None]
    failed_source_contribution[where fs = "\<lambda>p. Opened [''#x''] ReadError"
      and path = "''cut.csv''" and ls = "[''#x'']" and st = "([], [])"]
  by simp

text \<open>
  C8 as it is stated fails for a source on which reading fails after a line was
  delivered: the record of that line is in the list of valid records.
\<close>

theorem read_failure_keeps_lines:
  "parse_csv_file
     (\<lambda>p. Opened [''AB12,JFK,LAX,2024-01-01 08:00,2024-01-01 10:00,100''] ReadError)
     ''flights.csv'' ([], []) =
     ([\<lparr>flight_id = ''AB12'', origin = ''JFK'', destination = ''LAX'',
        departure_datetime = ''2024-01-01 08:00'', arrival_datetime = ''2024-01-01 10:00'',
        price = Finite 100\<rparr>], [])
   \<and> parse_csv_file
     (\<lambda>p. Opened [''AB12,JFK,LAX,2024-01-01 08:00,2024-01-01 10:00,100''] ReadError)
     ''flights.csv'' ([], []) \<noteq> ([], [])"
proof -
  have s: "strip ''AB12,JFK,LAX,2024-01-01 08:00,2024-01-01 10:00,100'' =
      ''AB12,JFK,LAX,2024-01-01 08:00,2024-01-01 10:00,100''"
    by code_simp
  have h: "\<not> str_contains ''flight_id'' ''AB12,JFK,LAX,2024-01-01 08:00,2024-01-01 10:00,100''"
    by code_simp
  have c: "\<not> startswith ''AB12,JFK,LAX,2024-01-01 08:00,2024-01-01 10:00,100'' ''#''"
    by code_simp
  show ?thesis
    using example_row
    by (simp add: parse_csv_file_def parse_line_def Let_def s h c del: str_contains.simps)
qed

text \<open>
  C9. For a line that begins with \<^verbatim>\<open>#\<close> after trimming: as line 1 with \<^verbatim>\<open>flight_id\<close> in it,
  the line is skipped and the lists are unchanged (so the file is processed from its
  second line on); in every other case the comment entry is recorded and the line is not
  validated.
\<close>

theorem header_before_comment:
  assumes "startswith (strip line) ''#''"
  shows "parse_line n line st =
           (if n = 1 \<and> str_contains ''flight_id'' (strip line) then st
            else (fst st,
                  snd st @ [''Line '' @ str_of_nat n @ '': '' @ strip line @ '' -> comment'']))
       \<and> (str_contains ''flight_id'' (strip line) \<longrightarrow> fs path = Opened (line # rest) e \<longrightarrow>
            parse_csv_file fs path st = snd (read_lines 2 rest e st))"
proof -
  from assms have ne: "strip line \<noteq> []"
    by (auto simp: startswith_def)
  then have 1: "parse_line n line st =
           (if n = 1 \<and> str_contains ''flight_id'' (strip line) then st
            else (fst st,
                  snd st @ [''Line '' @ str_of_nat n @ '': '' @ strip line @ '' -> comment'']))"
    using assms by (simp add: parse_line_def Let_def)
  then have "str_contains ''flight_id'' (strip line) \<Longrightarrow> parse_line 1 line st = st"
    using assms ne by (simp add: parse_line_def Let_def)
  then have 2: "str_contains ''flight_id'' (strip line) \<longrightarrow> fs path = Opened (line # rest) e \<longrightarrow>
            parse_csv_file fs path st = snd (read_lines 2 rest e st)"
    by (simp add: parse_csv_file_def numeral_2_eq_2)
  from 1 2 show ?thesis by blast
qed

theorem header_before_comment_witness:
  "parse_line 1 ''# flight_id,origin'' ([], []) = ([], [])
   \<and> parse_line 2 ''# flight_id,origin'' ([], []) =
       ([], [''Line 2: # flight_id,origin -> comment''])
   \<and> parse_line 1 ''#note'' ([], []) = ([], [''Line 1: #note -> comment''])
   \<and> parse_csv_file (\<lambda>p. Opened [''# flight_id,origin'', ''#note''] EndOfFile) ''a.csv'' ([], [])
       = snd (read_lines 2 [''#note''] EndOfFile ([], []))"
proof -
  have s: "strip ''# flight_id,origin'' = ''# flight_id,origin''" "strip ''#note'' = ''#note''"
    by code_simp+
  have c: "startswith (strip ''# flight_id,origin'') ''#''" "startswith (strip ''#note'') ''#''"
    by code_simp+
  have h: "str_contains ''flight_id'' ''# flight_id,origin''"
      "\<not> str_contains ''flight_id'' ''#note''"
    by code_simp+
  have n: "str_of_nat 1 = ''1''" "str_of_nat 2 = ''2''"
    by code_simp+
  show ?thesis
    using header_before_comment[OF c(1), of 1 "([], [])"
        "\<lambda>p. Opened [''# flight_id,origin'', ''#note''] EndOfFile" "''a.csv''" "[''#note'']"
        EndOfFile]
      header_before_comment[OF c(1), of 2 "([], [])"]
      header_before_comment[OF c(2), of 1 "([], [])"] n
    by (simp add: s h del: str_contains.simps str_of_nat.simps)
qed

section \<open>The query engine\<close>

text \<open>The function returns \<^verbatim>\<open>True\<close> exactly when none of the conditions of its six
  \<^verbatim>\<open>return False\<close> holds.\<close>

lemma flight_matches_query_guards:
  "flight_matches_query f q \<longleftrightarrow>
     \<not> (q ''flight_id'' \<noteq> None \<and> JStr (flight_id f) \<noteq> the (q ''flight_id'')) \<and>
     \<not> (q ''origin'' \<noteq> None \<and> JStr (origin f) \<noteq> the (q ''origin'')) \<and>
     \<not> (q ''destination'' \<noteq> None \<and> JStr (destination f) \<noteq> the (q ''destination'')) \<and>
     \<not> (q ''price'' \<noteq> None \<and>
          (case py_float (the (q ''price'')) of
             None \<Rightarrow> True | Some qp \<Rightarrow> pyfloat_less qp (price f))) \<and>
     \<not> (q ''departure_datetime'' \<noteq> None \<and>
          (case parse_datetime (departure_datetime f) of
             None \<Rightarrow> True
           | Some rd \<Rightarrow>
               (case parse_datetime_value (the (q ''departure_datetime'')) of
                  None \<Rightarrow> True | Some qd \<Rightarrow> rd < qd))) \<and>
     \<not> (q ''arrival_datetime'' \<noteq> None \<and>
          (case parse_datetime (arrival_datetime f) of
             None \<Rightarrow> True
           | Some ra \<Rightarrow>
               (case parse_datetime_value (the (q ''arrival_datetime'')) of
                  None \<Rightarrow> True | Some qa \<Rightarrow> qa < ra)))"
  unfolding flight_matches_query_def by (simp only: if_False if_True split: if_split) blast

lemma guard_added_key:
  assumes "q k = None" and "\<not> ((q(k \<mapsto> v)) k' \<noteq> None \<and> G (the ((q(k \<mapsto> v)) k')))"
  shows "\<not> (q k' \<noteq> None \<and> G (the (q k')))"
  using assms by (cases "k' = k") auto

lemma added_key:
  assumes "q k = None" and "flight_matches_query f (q(k \<mapsto> v))"
  shows "flight_matches_query f q"
proof -
  note g = assms(2)[unfolded flight_matches_query_guards]
  note m = guard_added_key[of q k v, OF assms(1)]
  show ?thesis
    unfolding flight_matches_query_guards
    by (intro conjI m) (use g in blast)+
qed

text \<open>
  C2. A record matches a query exactly when it passes the check of every key that the
  query has: the three string fields by equality; the price when the value of the query
  converts to a number and the record's price is not greater than it; the departure when
  both texts parse and the record's is not before the query's; the arrival when both
  texts parse and the record's is not after the query's. A value that does not convert or
  parse makes the record a non-match; the function has no other result than a Boolean.
\<close>

theorem query_match_iff:
  "flight_matches_query f q \<longleftrightarrow>
     (\<forall>v. q ''flight_id'' = Some v \<longrightarrow> v = JStr (flight_id f)) \<and>
     (\<forall>v. q ''origin'' = Some v \<longrightarrow> v = JStr (origin f)) \<and>
     (\<forall>v. q ''destination'' = Some v \<longrightarrow> v = JStr (destination f)) \<and>
     (\<forall>v. q ''price'' = Some v \<longrightarrow>
        (\<exists>qp. py_float v = Some qp \<and> \<not> pyfloat_less qp (price f))) \<and>
     (\<forall>v. q ''departure_datetime'' = Some v \<longrightarrow>
        (\<exists>rd qd. parse_datetime (departure_datetime f) = Some rd \<and>
           parse_datetime_value v = Some qd \<and> \<not> rd < qd)) \<and>
     (\<forall>v. q ''arrival_datetime'' = Some v \<longrightarrow>
        (\<exists>ra qa. parse_datetime (arrival_datetime f) = Some ra \<and>
           parse_datetime_value v = Some qa \<and> \<not> qa < ra))"
proof -
  have str: "\<And>k s. \<not> (q k \<noteq> None \<and> JStr s \<noteq> the (q k)) \<longleftrightarrow> (\<forall>v. q k = Some v \<longrightarrow> v = JStr s)"
    subgoal for k s by (cases "q k") auto
    done
  have num: "\<And>k. \<not> (q k \<noteq> None \<and>
          (case py_float (the (q k)) of None \<Rightarrow> True | Some qp \<Rightarrow> pyfloat_less qp (price f)))
       \<longleftrightarrow> (\<forall>v. q k = Some v \<longrightarrow> (\<exists>qp. py_float v = Some qp \<and> \<not> pyfloat_less qp (price f)))"
    subgoal for k by (cases "q k") (auto split: option.splits)
    done
  have dep: "\<And>k s. \<not> (q k \<noteq> None \<and>
          (case parse_datetime s of
             None \<Rightarrow> True
           | Some rd \<Rightarrow>
               (case parse_datetime_value (the (q k)) of None \<Rightarrow> True | Some qd \<Rightarrow> rd < qd)))
       \<longleftrightarrow> (\<forall>v. q k = Some v \<longrightarrow> (\<exists>rd qd. parse_datetime s = Some rd \<and>
           parse_datetime_value v = Some qd \<and> \<not> rd < qd))"
    subgoal for k s by (cases "q k") (auto split: option.splits)
    done
  have arr: "\<And>k s. \<not> (q k \<noteq> None \<and>
          (case parse_datetime s of
             None \<Rightarrow> True
           | Some ra \<Rightarrow>
               (case parse_datetime_value (the (q k)) of None \<Rightarrow> True | Some qa \<Rightarrow> qa < ra)))
       \<longleftrightarrow> (\<forall>v. q k = Some v \<longrightarrow> (\<exists>ra qa. parse_datetime s = Some ra \<and>
           parse_datetime_value v = Some qa \<and> \<not> qa < ra))"
    subgoal for k s by (cases "q k") (auto split: option.splits)
    done
  show ?thesis
    unfolding flight_matches_query_guards by (simp only: str num dep arr)
qed

theorem query_match_iff_witness:
  "flight_matches_query
     \<lparr>flight_id = ''AB12'', origin = ''JFK'', destination = ''LAX'',
      departure_datetime = ''2024-01-01 08:00'', arrival_datetime = ''2024-01-01 10:00'',
      price = Finite 100\<rparr>
     [''price'' \<mapsto> JInt 150]
   \<and> \<not> flight_matches_query
     \<lparr>flight_id = ''AB12'', origin = ''JFK'', destination = ''LAX'',
      departure_datetime = ''2024-01-01 08:00'', arrival_datetime = ''2024-01-01 10:00'',
      price = Finite 100\<rparr>
     [''price'' \<mapsto> JInt 50]
   \<and> \<not> flight_matches_query
     \<lparr>flight_id = ''AB12'', origin = ''JFK'', destination = ''LAX'',
      departure_datetime = ''2024-01-01 08:00'', arrival_datetime = ''2024-01-01 10:00'',
      price = Finite 100\<rparr>
     [''origin'' \<mapsto> JStr ''JFK'', ''departure_datetime'' \<mapsto> JStr ''tomorrow'']"
proof -
  have hi: "py_float (JInt 150) = Some (Finite 150)" by code_simp
  have lo: "py_float (JInt 50) = Some (Finite 50)" by code_simp
  have bad: "parse_datetime_value (JStr ''tomorrow'') = None" by code_simp
  show ?thesis
    unfolding query_match_iff by (simp add: hi lo bad)
qed

text \<open>
  C6. Extending a query with a key it does not have, whatever the value, gives matches
  that are among the matches of the query.
\<close>

theorem added_key_shrinks_matches:
  assumes "q k = None"
  shows "set (query_matches db (q(k \<mapsto> v))) \<subseteq> set (query_matches db q)"
proof
  fix f assume "f \<in> set (query_matches db (q(k \<mapsto> v)))"
  then have "f \<in> set db" and "flight_matches_query f (q(k \<mapsto> v))"
    by (simp_all add: query_matches_def)
  with assms show "f \<in> set (query_matches db q)"
    by (simp add: query_matches_def added_key)
qed

theorem added_key_shrinks_matches_witness:
  "set (query_matches
          [\<lparr>flight_id = ''AB12'', origin = ''JFK'', destination = ''LAX'',
            departure_datetime = ''2024-01-01 08:00'', arrival_datetime = ''2024-01-01 10:00'',
            price = Finite 100\<rparr>]
          [''origin'' \<mapsto> JStr ''JFK'', ''price'' \<mapsto> JNull])
   \<subseteq> set (query_matches
          [\<lparr>flight_id = ''AB12'', origin = ''JFK'', destination = ''LAX'',
            departure_datetime = ''2024-01-01 08:00'', arrival_datetime = ''2024-01-01 10:00'',
            price = Finite 100\<rparr>]
          [''origin'' \<mapsto> JStr ''JFK''])"
  by (rule added_key_shrinks_matches) simp

end
